theory Spec2Isabelle
  imports Main "HOL-Library.Word" "HOL-Library.Sublist"
begin

section \<open>The OEM force-dump driver: drivers/oneplus/misc/oem_force_dump.c\<close>

text \<open>
  The driver keeps its state in file-level and function-level statics. The model passes
  them around as one record. C \<open>int\<close> and \<open>unsigned int\<close> are 32-bit words: \<open>sint\<close>
  reads the first, \<open>unat\<close> the second, and a conversion between the two keeps the bits.
  Kernel logging (\<open>pr_info\<close>, \<open>pr_err\<close>) is not modelled.
\<close>

type_synonym u32 = "32 word"
type_synonym s32 = "32 word"

subsection \<open>Key codes\<close>

text \<open>
  Modelled from the spec: the macros \<open>KEY_VOLUMEDOWN\<close>, \<open>KEY_VOLUMEUP\<close> and
  \<open>KEY_POWER\<close> are defined by the kernel's input-event-codes header, which is not among
  the source files. The spec names them as three different codes of the input event. They
  are given the values of that header (114, 115, 116); the proofs below use nothing about
  them but that they differ from each other.
\<close>

definition KEY_VOLUMEDOWN :: u32 where
  "KEY_VOLUMEDOWN = 114"

definition KEY_VOLUMEUP :: u32 where
  "KEY_VOLUMEUP = 115"

definition KEY_POWER :: u32 where
  "KEY_POWER = 116"

subsection \<open>The statics of the driver\<close>

text \<open>The anonymous enum of the static \<open>state\<close> in \<open>oem_check_force_dump_key\<close>.\<close>

datatype key_step =
  NONE | STEP1 | STEP2 | STEP3 | STEP4 | STEP5 | STEP6 | STEP7 | STEP8 | STEP9
  | STEP10 | STEP11 | STEP_DEBUG1

text \<open>\<open>panic\<close> does not return: it is the error value of the model.\<close>

datatype fatal = Panic string

text \<open>
  \<open>nl_sk\<close> says whether the socket pointer is set (it is \<open>NULL\<close> until
  \<open>op_netlink_init\<close> stores what \<open>netlink_kernel_create\<close> returned). \<open>smg_work_pending\<close>
  is the one bit of the work queue the driver can observe: \<open>smg_work\<close> has been queued
  and its worker has not started yet. The last two fields record what the driver hands to
  its collaborators: every \<open>netlink_unicast\<close> (destination port id and payload) in
  order, and the number of calls of \<open>msm_serial_oem_init\<close>.
\<close>

record oem_globals =
  nl_sk :: bool
  fd :: s32
  message_state :: s32
  selinux_switch :: s32
  state :: key_step
  smg_work_pending :: bool
  unicast :: "(u32 \<times> string) list"
  serial_inits :: nat

text \<open>The initialisers of the statics; \<open>sk\<close> is whether the socket has been created.\<close>

definition initial_globals :: "bool \<Rightarrow> oem_globals" where
  "initial_globals sk =
     \<lparr> nl_sk = sk, fd = - 1, message_state = - 1, selinux_switch = 0, state = NONE,
       smg_work_pending = False, unicast = [], serial_inits = 0 \<rparr>"

subsection \<open>The key-sequence recognizer\<close>

definition set_oem_selinux_state :: "s32 \<Rightarrow> oem_globals \<Rightarrow> oem_globals" where
  "set_oem_selinux_state s g = g\<lparr>selinux_switch := s\<rparr>"

definition get_oem_selinux_state :: "oem_globals \<Rightarrow> s32" where
  "get_oem_selinux_state g = selinux_switch g"

text \<open>
  \<open>queue_work(smg_workwq, &smg_work)\<close>: the work becomes pending; queueing a work that
  is pending already changes nothing.
\<close>

definition queue_work :: "oem_globals \<Rightarrow> oem_globals" where
  "queue_work g = g\<lparr>smg_work_pending := True\<rparr>"

text \<open>
  \<open>oem_check_force_dump_key(code, value)\<close>. The parameter \<open>download_mode\<close> is what
  \<open>oem_get_download_mode()\<close> returns when the function asks. In \<open>STEP11\<close> the
  \<open>else\<close> belongs to the outer \<open>if\<close>: with the power key pressed and the download
  mode off, no branch assigns \<open>state\<close>.
\<close>

definition oem_check_force_dump_key ::
    "bool \<Rightarrow> u32 \<Rightarrow> s32 \<Rightarrow> oem_globals \<Rightarrow> fatal + oem_globals" where
  "oem_check_force_dump_key download_mode code val g =
     (case state g of
        NONE \<Rightarrow>
          if code = KEY_VOLUMEUP \<and> val \<noteq> 0 then Inr (g\<lparr>state := STEP1\<rparr>)
          else Inr (g\<lparr>state := NONE\<rparr>)
      | STEP1 \<Rightarrow>
          if code = KEY_VOLUMEUP \<and> val = 0 then Inr (g\<lparr>state := STEP2\<rparr>)
          else Inr (g\<lparr>state := NONE\<rparr>)
      | STEP2 \<Rightarrow>
          if code = KEY_VOLUMEDOWN \<and> val \<noteq> 0 then Inr (g\<lparr>state := STEP3\<rparr>)
          else Inr (g\<lparr>state := NONE\<rparr>)
      | STEP3 \<Rightarrow>
          if code = KEY_VOLUMEDOWN \<and> val = 0 then Inr (g\<lparr>state := STEP4\<rparr>)
          else Inr (g\<lparr>state := NONE\<rparr>)
      | STEP4 \<Rightarrow>
          if code = KEY_VOLUMEUP \<and> val \<noteq> 0 then Inr (g\<lparr>state := STEP5\<rparr>)
          else Inr (g\<lparr>state := NONE\<rparr>)
      | STEP5 \<Rightarrow>
          if code = KEY_POWER \<and> val \<noteq> 0 then Inr (g\<lparr>state := STEP6\<rparr>)
          else Inr (g\<lparr>state := NONE\<rparr>)
      | STEP6 \<Rightarrow>
          if code = KEY_POWER \<and> val = 0 then Inr (g\<lparr>state := STEP7\<rparr>)
          else Inr (g\<lparr>state := NONE\<rparr>)
      | STEP7 \<Rightarrow>
          if code = KEY_POWER \<and> val \<noteq> 0 then Inr (g\<lparr>state := STEP8\<rparr>)
          else Inr (g\<lparr>state := NONE\<rparr>)
      | STEP8 \<Rightarrow>
          if code = KEY_POWER \<and> val = 0 then Inr (g\<lparr>state := STEP9\<rparr>)
          else Inr (g\<lparr>state := NONE\<rparr>)
      | STEP9 \<Rightarrow>
          if code = KEY_VOLUMEUP \<and> val = 0 then Inr (g\<lparr>state := STEP10\<rparr>)
          else Inr (g\<lparr>state := NONE\<rparr>)
      | STEP10 \<Rightarrow>
          if code = KEY_VOLUMEUP \<and> val \<noteq> 0 then Inr (g\<lparr>state := STEP11\<rparr>)
          else if code = KEY_VOLUMEDOWN \<and> val \<noteq> 0 then Inr (g\<lparr>state := STEP_DEBUG1\<rparr>)
          else Inr (g\<lparr>state := NONE\<rparr>)
      | STEP11 \<Rightarrow>
          if code = KEY_POWER \<and> val \<noteq> 0 then
            (if download_mode then Inl (Panic ''Force Dump'') else Inr g)
          else Inr (g\<lparr>state := NONE\<rparr>)
      | STEP_DEBUG1 \<Rightarrow>
          if code = KEY_POWER \<and> val \<noteq> 0 then
            Inr ((queue_work ((set_oem_selinux_state 1 g)\<lparr>message_state := 1\<rparr>))
                   \<lparr>state := NONE\<rparr>)
          else if code = KEY_VOLUMEDOWN \<and> val = 0 then
            Inr ((queue_work (g\<lparr>message_state := 2\<rparr>))\<lparr>state := NONE\<rparr>)
          else Inr (g\<lparr>state := NONE\<rparr>))"

text \<open>
  The input layer calls the recognizer once per event. \<open>outcomes\<close> lists what each call
  leaves behind, in order; after a panic no further event is processed. \<open>run_keys\<close> is
  the last of them.
\<close>

type_synonym key_event = "u32 \<times> s32"

fun outcomes :: "bool \<Rightarrow> key_event list \<Rightarrow> oem_globals \<Rightarrow> (fatal + oem_globals) list" where
  "outcomes dl [] g = []"
| "outcomes dl ((c, v) # es) g =
     (case oem_check_force_dump_key dl c v g of
        Inl p \<Rightarrow> [Inl p]
      | Inr g' \<Rightarrow> Inr g' # outcomes dl es g')"

fun run_keys :: "bool \<Rightarrow> key_event list \<Rightarrow> oem_globals \<Rightarrow> fatal + oem_globals" where
  "run_keys dl [] g = Inr g"
| "run_keys dl ((c, v) # es) g =
     (case oem_check_force_dump_key dl c v g of
        Inl p \<Rightarrow> Inl p
      | Inr g' \<Rightarrow> run_keys dl es g')"

text \<open>The eleven events of the comment above the function, up to the last power press.\<close>

definition primary_sequence :: "key_event list" where
  "primary_sequence =
     [(KEY_VOLUMEUP, 1), (KEY_VOLUMEUP, 0), (KEY_VOLUMEDOWN, 1), (KEY_VOLUMEDOWN, 0),
      (KEY_VOLUMEUP, 1), (KEY_POWER, 1), (KEY_POWER, 0), (KEY_POWER, 1), (KEY_POWER, 0),
      (KEY_VOLUMEUP, 0), (KEY_VOLUMEUP, 1)]"

text \<open>
  The branch to the debug sub-path: the first ten events of the primary sequence, then
  volume-down pressed.
\<close>

definition debug_sequence :: "key_event list" where
  "debug_sequence =
     [(KEY_VOLUMEUP, 1), (KEY_VOLUMEUP, 0), (KEY_VOLUMEDOWN, 1), (KEY_VOLUMEDOWN, 0),
      (KEY_VOLUMEUP, 1), (KEY_POWER, 1), (KEY_POWER, 0), (KEY_POWER, 1), (KEY_POWER, 0),
      (KEY_VOLUMEUP, 0), (KEY_VOLUMEDOWN, 1)]"

subsection \<open>The paths as the specification words them\<close>

text \<open>
  The specification describes the recognizer as a path graph: from each state, the
  events (key code, pressed) that continue a defined path, and the state each leads to.
  This table follows the specification's words, not the code; the theorems below compare
  the code with it. An event carries the C \<open>value\<close>; the key is pressed when it is not 0.
\<close>

definition spec_edges :: "(key_step \<times> (u32 \<times> bool) \<times> key_step) list" where
  "spec_edges =
     [(NONE, (KEY_VOLUMEUP, True), STEP1),
      (STEP1, (KEY_VOLUMEUP, False), STEP2),
      (STEP2, (KEY_VOLUMEDOWN, True), STEP3),
      (STEP3, (KEY_VOLUMEDOWN, False), STEP4),
      (STEP4, (KEY_VOLUMEUP, True), STEP5),
      (STEP5, (KEY_POWER, True), STEP6),
      (STEP6, (KEY_POWER, False), STEP7),
      (STEP7, (KEY_POWER, True), STEP8),
      (STEP8, (KEY_POWER, False), STEP9),
      (STEP9, (KEY_VOLUMEUP, False), STEP10),
      (STEP10, (KEY_VOLUMEUP, True), STEP11),
      (STEP10, (KEY_VOLUMEDOWN, True), STEP_DEBUG1),
      (STEP11, (KEY_POWER, True), NONE),
      (STEP_DEBUG1, (KEY_POWER, True), NONE),
      (STEP_DEBUG1, (KEY_VOLUMEDOWN, False), NONE)]"

definition spec_expected_next :: "key_step \<Rightarrow> (u32 \<times> bool) list" where
  "spec_expected_next s = map (fst \<circ> snd) (filter (\<lambda>e. fst e = s) spec_edges)"

definition spec_next :: "key_step \<Rightarrow> u32 \<times> bool \<Rightarrow> key_step option" where
  "spec_next s e = map_of (map snd (filter (\<lambda>x. fst x = s) spec_edges)) e"

definition pressed :: "key_event \<Rightarrow> u32 \<times> bool" where
  "pressed e = (fst e, snd e \<noteq> 0)"

text \<open>A sequence of events matches a defined path from \<open>s\<close> when each event is an edge.\<close>

fun spec_follows :: "key_step \<Rightarrow> key_event list \<Rightarrow> bool" where
  "spec_follows s [] = True"
| "spec_follows s (e # es) =
     (case spec_next s (pressed e) of None \<Rightarrow> False | Some s' \<Rightarrow> spec_follows s' es)"

subsection \<open>The netlink channel and the worker\<close>

definition MAX_MSGSIZE :: nat where
  "MAX_MSGSIZE = 1024"

text \<open>
  \<open>strlcpy(dst, src, n)\<close> of the C library: at most \<open>n - 1\<close> bytes of \<open>src\<close>,
  then the terminator. A C string is modelled by its bytes before the terminator.
\<close>

definition strlcpy :: "string \<Rightarrow> nat \<Rightarrow> string" where
  "strlcpy src n = take (n - 1) src"

text \<open>
  \<open>send_msg(message)\<close>. \<open>message\<close> is \<open>None\<close> for a \<open>NULL\<close> pointer. \<open>alloc_ok\<close> is
  whether \<open>alloc_skb\<close> returns a buffer. The \<open>int fd\<close> is passed to \<open>netlink_unicast\<close>
  as its unsigned port id: the same 32 bits.
\<close>

definition send_msg :: "bool \<Rightarrow> string option \<Rightarrow> oem_globals \<Rightarrow> oem_globals" where
  "send_msg alloc_ok message g =
     (case message of
        None \<Rightarrow> g
      | Some m \<Rightarrow>
          if \<not> nl_sk g then g
          else if \<not> alloc_ok then g
          else g\<lparr>unicast := unicast g @ [(fd g, strlcpy m MAX_MSGSIZE)]\<rparr>)"

text \<open>\<open>msm_serial_oem_init()\<close> belongs to the serial driver; the model counts its calls.\<close>

definition msm_serial_oem_init :: "oem_globals \<Rightarrow> oem_globals" where
  "msm_serial_oem_init g = g\<lparr>serial_inits := Suc (serial_inits g)\<rparr>"

definition send_msg_worker :: "bool \<Rightarrow> oem_globals \<Rightarrow> oem_globals" where
  "send_msg_worker alloc_ok g =
     (let g' =
        (if message_state g = 1 then send_msg alloc_ok (Some ''Enable DEBUG!'') g
         else if message_state g = 2 then
           send_msg alloc_ok (Some ''ENABLE_OEM_FORCE_SERIAL'') (msm_serial_oem_init g)
         else g)
      in g'\<lparr>message_state := 0\<rparr>)"

text \<open>
  The single-threaded work queue: when \<open>smg_work\<close> is pending, its thread clears the
  pending bit and calls the work function once; when nothing is pending it does nothing.
\<close>

definition run_smg_work :: "bool \<Rightarrow> oem_globals \<Rightarrow> oem_globals" where
  "run_smg_work alloc_ok g =
     (if smg_work_pending g then send_msg_worker alloc_ok (g\<lparr>smg_work_pending := False\<rparr>)
      else g)"

definition send_msg_sync_mdm_dump :: "bool \<Rightarrow> oem_globals \<Rightarrow> oem_globals" where
  "send_msg_sync_mdm_dump alloc_ok g = send_msg alloc_ok (Some ''FORCE_MDM_DUMP_SYNC'') g"

text \<open>
  Modelled from the spec: \<open>NLMSG_HDRLEN\<close> is a macro of the kernel's netlink header, which
  is not among the source files; the spec calls it the fixed header size. It is the
  aligned size of \<open>struct nlmsghdr\<close>, 16 bytes.
\<close>

definition NLMSG_HDRLEN :: u32 where
  "NLMSG_HDRLEN = 16"

text \<open>
  What \<open>recv_nlmsg\<close> reads of an inbound buffer: \<open>skb->len\<close> and, of the header at its
  start, \<open>nlmsg_len\<close> and \<open>nlmsg_pid\<close>. All three are unsigned.
\<close>

record sk_buff =
  skb_len :: u32
  nlmsg_len :: u32
  nlmsg_pid :: u32

definition recv_nlmsg :: "sk_buff \<Rightarrow> oem_globals \<Rightarrow> oem_globals" where
  "recv_nlmsg skb g =
     (if nlmsg_len skb < NLMSG_HDRLEN \<or> skb_len skb < nlmsg_len skb then g
      else g\<lparr>fd := nlmsg_pid skb\<rparr>)"

text \<open>
  Everything that can happen to the statics after the module is loaded: a key event (with
  the download mode of that moment), a run of the work queue's thread, a synchronous
  modem-dump message, an inbound netlink message. The last three carry whether the
  allocation of the outbound buffer succeeds, where there is one.
\<close>

datatype oem_op =
  Key_event u32 s32 bool
  | Work_run bool
  | Sync_mdm_dump bool
  | Nl_input sk_buff

fun oem_do :: "oem_op \<Rightarrow> oem_globals \<Rightarrow> fatal + oem_globals" where
  "oem_do (Key_event c v dl) g = oem_check_force_dump_key dl c v g"
| "oem_do (Work_run a) g = Inr (run_smg_work a g)"
| "oem_do (Sync_mdm_dump a) g = Inr (send_msg_sync_mdm_dump a g)"
| "oem_do (Nl_input skb) g = Inr (recv_nlmsg skb g)"

fun oem_run :: "oem_op list \<Rightarrow> oem_globals \<Rightarrow> fatal + oem_globals" where
  "oem_run [] g = Inr g"
| "oem_run (x # xs) g = (case oem_do x g of Inl p \<Rightarrow> Inl p | Inr g' \<Rightarrow> oem_run xs g')"

text \<open>An inbound message that \<open>recv_nlmsg\<close> does not drop.\<close>

fun accepted_input :: "oem_op \<Rightarrow> bool" where
  "accepted_input (Nl_input skb) = (NLMSG_HDRLEN \<le> nlmsg_len skb \<and> nlmsg_len skb \<le> skb_len skb)"
| "accepted_input _ = False"

subsection \<open>Locating a task by name and signalling it\<close>

text \<open>
  \<open>strncmp\<close> and \<open>strcmp\<close> of the C library, on strings given by their bytes before the
  terminator (so the end of the list reads as the terminator, the smallest byte). The
  result is negative, zero or positive; the driver only tests it for zero.
\<close>

fun strncmp :: "string \<Rightarrow> string \<Rightarrow> nat \<Rightarrow> int" where
  "strncmp cs ct 0 = 0"
| "strncmp [] [] (Suc n) = 0"
| "strncmp [] (c2 # ct) (Suc n) = - 1"
| "strncmp (c1 # cs) [] (Suc n) = 1"
| "strncmp (c1 # cs) (c2 # ct) (Suc n) =
     (if c1 \<noteq> c2 then (if (of_char c1 :: nat) < of_char c2 then - 1 else 1)
      else strncmp cs ct n)"

fun strcmp :: "string \<Rightarrow> string \<Rightarrow> int" where
  "strcmp [] [] = 0"
| "strcmp [] (c2 # ct) = - 1"
| "strcmp (c1 # cs) [] = 1"
| "strcmp (c1 # cs) (c2 # ct) =
     (if c1 \<noteq> c2 then (if (of_char c1 :: nat) < of_char c2 then - 1 else 1)
      else strcmp cs ct)"

text \<open>
  Modelled from the spec: \<open>TASK_COMM_LEN\<close> is a macro of the kernel's scheduler header,
  which is not among the source files; the spec gives the command name as at most 16
  bytes, terminator included.
\<close>

definition TASK_COMM_LEN :: nat where
  "TASK_COMM_LEN = 16"

text \<open>
  What the driver reads of a \<open>task_struct\<close>: \<open>comm\<close>, \<open>pid\<close>, \<open>group_leader->pid\<close>,
  the uid of its credentials, and \<open>parent->comm\<close> (\<open>None\<close> when \<open>parent\<close> is \<open>NULL\<close>).
\<close>

record task_struct =
  comm :: string
  pid :: s32
  group_leader_pid :: s32
  cred_uid :: u32
  parent_comm :: "string option"

definition find_task_by_name :: "task_struct \<Rightarrow> string \<Rightarrow> bool" where
  "find_task_by_name t name =
     (if strncmp (comm t) name TASK_COMM_LEN = 0 then True
      else if strncmp (comm t) ''Binder:'' 7 = 0 \<and> group_leader_pid t = pid t
              \<and> cred_uid t = 1000
              \<and> (case parent_comm t of None \<Rightarrow> False | Some pc \<Rightarrow> strcmp pc ''main'' = 0)
           then True
      else False)"

text \<open>
  The process table: the processes in the order of the kernel's task list, each with its
  thread-group leader and its other threads in the order of \<open>for_each_thread\<close>.
  \<open>for_each_process\<close> visits the leaders, \<open>for_each_process_thread\<close> every thread of
  every process, the leader first.
\<close>

type_synonym process_table = "(task_struct \<times> task_struct list) list"

definition for_each_process :: "process_table \<Rightarrow> task_struct list" where
  "for_each_process tbl = map fst tbl"

definition for_each_process_thread :: "process_table \<Rightarrow> task_struct list" where
  "for_each_process_thread tbl = concat (map (\<lambda>p. fst p # snd p) tbl)"

datatype signal = SIGQUIT | SIGNAL_DEBUGGER

text \<open>
  What the two functions hand to the kernel: \<open>do_send_sig_info(sig, SEND_SIG_FORCED, t,
  PIDTYPE_TGID)\<close> and \<open>msleep(ms)\<close>.
\<close>

datatype sig_call = Do_send_sig_info signal task_struct | Sig_msleep nat

fun trace_loop :: "string \<Rightarrow> task_struct list \<Rightarrow> sig_call list" where
  "trace_loop name [] = []"
| "trace_loop name (t # ts) =
     (if find_task_by_name t name then [Do_send_sig_info SIGQUIT t, Sig_msleep 500]
      else trace_loop name ts)"

definition send_sig_to_get_trace :: "string \<Rightarrow> process_table \<Rightarrow> sig_call list" where
  "send_sig_to_get_trace name tbl = trace_loop name (for_each_process_thread tbl)"

fun tombstone_loop :: "string \<Rightarrow> task_struct list \<Rightarrow> sig_call list" where
  "tombstone_loop name [] = []"
| "tombstone_loop name (p # ps) =
     (if strncmp (comm p) name TASK_COMM_LEN = 0
      then [Do_send_sig_info SIGNAL_DEBUGGER p, Sig_msleep 500]
      else tombstone_loop name ps)"

definition send_sig_to_get_tombstone :: "string \<Rightarrow> process_table \<Rightarrow> sig_call list" where
  "send_sig_to_get_tombstone name tbl = tombstone_loop name (for_each_process tbl)"

text \<open>
  A signal sent with \<open>PIDTYPE_TGID\<close> goes to the whole thread group of the task it is
  sent to: \<open>t\<close> is delivered \<open>sig\<close> when some call sends \<open>sig\<close> to a task of \<open>t\<close>'s group.
\<close>

definition delivered :: "sig_call list \<Rightarrow> signal \<Rightarrow> task_struct \<Rightarrow> bool" where
  "delivered calls sig t =
     list_ex (\<lambda>c. case c of
                    Do_send_sig_info s x \<Rightarrow> s = sig \<and> group_leader_pid x = group_leader_pid t
                  | Sig_msleep n \<Rightarrow> False) calls"

text \<open>
  The kernel's invariants of the table that the properties rest on: pids are unique, a
  leader leads itself, and every other thread of a process has that process's leader.
\<close>

definition wf_table :: "process_table \<Rightarrow> bool" where
  "wf_table tbl =
     (distinct (map pid (for_each_process_thread tbl))
      \<and> list_all (\<lambda>p. group_leader_pid (fst p) = pid (fst p)
                       \<and> list_all (\<lambda>t. group_leader_pid t = pid (fst p)) (snd p)) tbl)"

text \<open>
  The match predicate as the specification words it: the name is equal, or the name
  begins with the prefix, the task leads its thread group, its uid is the system uid 1000
  and its parent is named "main".
\<close>

definition spec_match :: "task_struct \<Rightarrow> string \<Rightarrow> bool" where
  "spec_match t name =
     (comm t = name
      \<or> (prefix ''Binder:'' (comm t) \<and> group_leader_pid t = pid t \<and> cred_uid t = 1000
         \<and> parent_comm t = Some ''main''))"

section \<open>The swap helper: drivers/block/vbswap/vbswap_helper.c\<close>

definition DELAY :: nat where
  "DELAY = 125"

text \<open>
  What the helper hands to the kernel: a command line run by \<open>call_usermodehelper\<close>
  through \<open>linux_sh\<close>, and \<open>msleep(ms)\<close>. The state of a run is the number of commands
  run so far and the calls so far, in order. \<open>umh\<close> is the environment: \<open>umh n\<close> is
  what the \<open>n\<close>-th call of \<open>call_usermodehelper\<close> returns (counting from 0); 0 is success.
\<close>

datatype vb_call = Linux_sh string | Msleep nat

type_synonym vb_state = "nat \<times> vb_call list"

definition linux_sh :: "(nat \<Rightarrow> s32) \<Rightarrow> string \<Rightarrow> vb_state \<Rightarrow> s32 \<times> vb_state" where
  "linux_sh umh command st = (umh (fst st), (Suc (fst st), snd st @ [Linux_sh command]))"

definition msleep :: "nat \<Rightarrow> vb_state \<Rightarrow> vb_state" where
  "msleep ms st = (fst st, snd st @ [Msleep ms])"

definition disksize_command :: string where
  "disksize_command =
     ''/system/bin/printf 4294967296 > /sys/devices/virtual/block/vbswap0/disksize''"

definition mkswap_command :: string where
  "mkswap_command = ''/system/bin/mkswap /dev/block/vbswap0''"

definition swapon_command :: string where
  "swapon_command = ''/system/bin/swapon /dev/block/vbswap0''"

text \<open>
  The \<open>do ... while (ret && (retries++ < 25))\<close> loop of \<open>vbswap_helper\<close>; \<open>retries\<close> is
  the C \<open>int\<close>, which stays far from its bounds.
\<close>

function vbswap_retry :: "(nat \<Rightarrow> s32) \<Rightarrow> int \<Rightarrow> vb_state \<Rightarrow> vb_state" where
  "vbswap_retry umh retries st =
     (case linux_sh umh disksize_command st of
        (ret, st1) \<Rightarrow>
          (let st2 = (if ret \<noteq> 0 then msleep DELAY st1 else st1)
           in if ret \<noteq> 0 \<and> retries < 25 then vbswap_retry umh (retries + 1) st2 else st2))"
  by pat_completeness auto
termination
  by (relation "measure (\<lambda>(umh, retries, st). nat (25 - retries))") auto

definition vbswap_helper :: "(nat \<Rightarrow> s32) \<Rightarrow> vb_state" where
  "vbswap_helper umh =
     (let st = vbswap_retry umh 0 (0, []);
          st' = snd (linux_sh umh mkswap_command st)
      in snd (linux_sh umh swapon_command st'))"

section \<open>Example tasks\<close>

text \<open>
  Three thread-group leaders for the concrete instances below: one whose name is the
  searched name, one that only the Binder heuristic matches, and one that nothing matches.
\<close>

definition exact_task :: task_struct where
  "exact_task = \<lparr> comm = ''system_server'', pid = 1500, group_leader_pid = 1500,
                  cred_uid = 1000, parent_comm = Some ''main'' \<rparr>"

definition binder_task :: task_struct where
  "binder_task = \<lparr> comm = ''Binder:1200_2'', pid = 1200, group_leader_pid = 1200,
                   cred_uid = 1000, parent_comm = Some ''main'' \<rparr>"

definition other_task :: task_struct where
  "other_task = \<lparr> comm = ''surfaceflinger'', pid = 700, group_leader_pid = 700,
                  cred_uid = 1000, parent_comm = Some ''init'' \<rparr>"

section \<open>Properties of the recognizer\<close>

lemma key_codes_distinct:
  "KEY_VOLUMEUP \<noteq> KEY_VOLUMEDOWN" "KEY_VOLUMEDOWN \<noteq> KEY_VOLUMEUP"
  "KEY_VOLUMEUP \<noteq> KEY_POWER" "KEY_POWER \<noteq> KEY_VOLUMEUP"
  "KEY_VOLUMEDOWN \<noteq> KEY_POWER" "KEY_POWER \<noteq> KEY_VOLUMEDOWN"
  by (simp_all add: KEY_VOLUMEUP_def KEY_VOLUMEDOWN_def KEY_POWER_def)

text \<open>The steps along the two paths, one equation each.\<close>

lemma step_on_path:
  "oem_check_force_dump_key dl KEY_VOLUMEUP 1 (g\<lparr>state := NONE\<rparr>) = Inr (g\<lparr>state := STEP1\<rparr>)"
  "oem_check_force_dump_key dl KEY_VOLUMEUP 0 (g\<lparr>state := STEP1\<rparr>) = Inr (g\<lparr>state := STEP2\<rparr>)"
  "oem_check_force_dump_key dl KEY_VOLUMEDOWN 1 (g\<lparr>state := STEP2\<rparr>) = Inr (g\<lparr>state := STEP3\<rparr>)"
  "oem_check_force_dump_key dl KEY_VOLUMEDOWN 0 (g\<lparr>state := STEP3\<rparr>) = Inr (g\<lparr>state := STEP4\<rparr>)"
  "oem_check_force_dump_key dl KEY_VOLUMEUP 1 (g\<lparr>state := STEP4\<rparr>) = Inr (g\<lparr>state := STEP5\<rparr>)"
  "oem_check_force_dump_key dl KEY_POWER 1 (g\<lparr>state := STEP5\<rparr>) = Inr (g\<lparr>state := STEP6\<rparr>)"
  "oem_check_force_dump_key dl KEY_POWER 0 (g\<lparr>state := STEP6\<rparr>) = Inr (g\<lparr>state := STEP7\<rparr>)"
  "oem_check_force_dump_key dl KEY_POWER 1 (g\<lparr>state := STEP7\<rparr>) = Inr (g\<lparr>state := STEP8\<rparr>)"
  "oem_check_force_dump_key dl KEY_POWER 0 (g\<lparr>state := STEP8\<rparr>) = Inr (g\<lparr>state := STEP9\<rparr>)"
  "oem_check_force_dump_key dl KEY_VOLUMEUP 0 (g\<lparr>state := STEP9\<rparr>) = Inr (g\<lparr>state := STEP10\<rparr>)"
  "oem_check_force_dump_key dl KEY_VOLUMEUP 1 (g\<lparr>state := STEP10\<rparr>) = Inr (g\<lparr>state := STEP11\<rparr>)"
  "oem_check_force_dump_key dl KEY_VOLUMEDOWN 1 (g\<lparr>state := STEP10\<rparr>) = Inr (g\<lparr>state := STEP_DEBUG1\<rparr>)"
  by (simp_all add: oem_check_force_dump_key_def key_codes_distinct)

lemma step_STEP11_power:
  "oem_check_force_dump_key dl KEY_POWER 1 (g\<lparr>state := STEP11\<rparr>) =
     (if dl then Inl (Panic ''Force Dump'') else Inr (g\<lparr>state := STEP11\<rparr>))"
  by (simp add: oem_check_force_dump_key_def)

lemma outcomes_primary:
  "outcomes dl primary_sequence (g\<lparr>state := NONE\<rparr>) =
     map (\<lambda>s. Inr (g\<lparr>state := s\<rparr>))
       [STEP1, STEP2, STEP3, STEP4, STEP5, STEP6, STEP7, STEP8, STEP9, STEP10, STEP11]"
  by (simp add: primary_sequence_def step_on_path)

lemma outcomes_append:
  "outcomes dl (es @ fs) g =
     (case run_keys dl es g of
        Inl p \<Rightarrow> outcomes dl es g
      | Inr g' \<Rightarrow> outcomes dl es g @ outcomes dl fs g')"
  by (induction es arbitrary: g) (auto split: sum.splits)

lemma run_keys_append:
  "run_keys dl (es @ fs) g =
     (case run_keys dl es g of Inl p \<Rightarrow> Inl p | Inr g' \<Rightarrow> run_keys dl fs g')"
  by (induction es arbitrary: g) (auto split: sum.splits)

lemma run_keys_primary:
  "run_keys dl primary_sequence (g\<lparr>state := NONE\<rparr>) = Inr (g\<lparr>state := STEP11\<rparr>)"
  by (simp add: primary_sequence_def step_on_path)

lemma run_keys_debug:
  "run_keys dl debug_sequence (g\<lparr>state := NONE\<rparr>) = Inr (g\<lparr>state := STEP_DEBUG1\<rparr>)"
  by (simp add: debug_sequence_def step_on_path)

text \<open>
  Claim C1. Started in \<open>NONE\<close> (idle) and fed the eleven events of the primary sequence
  and then a power press, with the download mode on, the recognizer panics with
  "Force Dump" at the twelfth event. Each of the eleven events before it changes the
  static \<open>state\<close> and nothing else: no switch is set, no work is queued, no message is
  sent.
\<close>

theorem force_dump_on_primary_sequence:
  assumes "state g = NONE"
  shows "outcomes True (primary_sequence @ [(KEY_POWER, 1)]) g =
           map (\<lambda>s. Inr (g\<lparr>state := s\<rparr>))
             [STEP1, STEP2, STEP3, STEP4, STEP5, STEP6, STEP7, STEP8, STEP9, STEP10, STEP11]
           @ [Inl (Panic ''Force Dump'')]"
proof -
  from assms have g: "g = g\<lparr>state := NONE\<rparr>" by simp
  have "outcomes True (primary_sequence @ [(KEY_POWER, 1)]) (g\<lparr>state := NONE\<rparr>) =
          map (\<lambda>s. Inr (g\<lparr>state := s\<rparr>))
            [STEP1, STEP2, STEP3, STEP4, STEP5, STEP6, STEP7, STEP8, STEP9, STEP10, STEP11]
          @ [Inl (Panic ''Force Dump'')]"
    by (simp add: outcomes_append run_keys_primary outcomes_primary step_STEP11_power)
  with g show ?thesis by simp
qed

theorem force_dump_on_primary_sequence_witness:
  "outcomes True (primary_sequence @ [(KEY_POWER, 1)]) (initial_globals True) =
     map (\<lambda>s. Inr ((initial_globals True)\<lparr>state := s\<rparr>))
       [STEP1, STEP2, STEP3, STEP4, STEP5, STEP6, STEP7, STEP8, STEP9, STEP10, STEP11]
     @ [Inl (Panic ''Force Dump'')]"
  using force_dump_on_primary_sequence [of "initial_globals True"]
  by (simp add: initial_globals_def)

text \<open>
  Claim C2 says that with the download mode off the twelfth event leaves the recognizer
  idle, so that the sequence can be repeated with the same effect. The code does not do
  that: the twelve events from \<open>NONE\<close> leave the state at \<open>STEP11\<close>, and the same
  twelve events fed again from there visit \<open>NONE\<close> and \<open>STEP1\<close> only and never come
  back to \<open>STEP11\<close>. No event of either pass changes anything but \<open>state\<close>.
\<close>

theorem download_mode_off_stays_in_STEP11:
  "outcomes False (primary_sequence @ [(KEY_POWER, 1)]) (g\<lparr>state := NONE\<rparr>) =
     map (\<lambda>s. Inr (g\<lparr>state := s\<rparr>))
       [STEP1, STEP2, STEP3, STEP4, STEP5, STEP6, STEP7, STEP8, STEP9, STEP10, STEP11, STEP11]
   \<and> run_keys False (primary_sequence @ [(KEY_POWER, 1)]) (g\<lparr>state := NONE\<rparr>) =
       Inr (g\<lparr>state := STEP11\<rparr>)
   \<and> outcomes False (primary_sequence @ [(KEY_POWER, 1)]) (g\<lparr>state := STEP11\<rparr>) =
       map (\<lambda>s. Inr (g\<lparr>state := s\<rparr>))
         [NONE, NONE, NONE, NONE, STEP1, NONE, NONE, NONE, NONE, NONE, STEP1, NONE]"
proof (intro conjI)
  show "outcomes False (primary_sequence @ [(KEY_POWER, 1)]) (g\<lparr>state := NONE\<rparr>) =
     map (\<lambda>s. Inr (g\<lparr>state := s\<rparr>))
       [STEP1, STEP2, STEP3, STEP4, STEP5, STEP6, STEP7, STEP8, STEP9, STEP10, STEP11, STEP11]"
    by (simp add: outcomes_append run_keys_primary outcomes_primary step_STEP11_power)
  show "run_keys False (primary_sequence @ [(KEY_POWER, 1)]) (g\<lparr>state := NONE\<rparr>) =
       Inr (g\<lparr>state := STEP11\<rparr>)"
    by (simp add: run_keys_append run_keys_primary step_STEP11_power)
  show "outcomes False (primary_sequence @ [(KEY_POWER, 1)]) (g\<lparr>state := STEP11\<rparr>) =
       map (\<lambda>s. Inr (g\<lparr>state := s\<rparr>))
         [NONE, NONE, NONE, NONE, STEP1, NONE, NONE, NONE, NONE, NONE, STEP1, NONE]"
    by (simp add: primary_sequence_def oem_check_force_dump_key_def key_codes_distinct)
qed

text \<open>The events the specification expects in each state, read off its table.\<close>

lemma spec_expected_next_simps:
  "spec_expected_next NONE = [(KEY_VOLUMEUP, True)]"
  "spec_expected_next STEP1 = [(KEY_VOLUMEUP, False)]"
  "spec_expected_next STEP2 = [(KEY_VOLUMEDOWN, True)]"
  "spec_expected_next STEP3 = [(KEY_VOLUMEDOWN, False)]"
  "spec_expected_next STEP4 = [(KEY_VOLUMEUP, True)]"
  "spec_expected_next STEP5 = [(KEY_POWER, True)]"
  "spec_expected_next STEP6 = [(KEY_POWER, False)]"
  "spec_expected_next STEP7 = [(KEY_POWER, True)]"
  "spec_expected_next STEP8 = [(KEY_POWER, False)]"
  "spec_expected_next STEP9 = [(KEY_VOLUMEUP, False)]"
  "spec_expected_next STEP10 = [(KEY_VOLUMEUP, True), (KEY_VOLUMEDOWN, True)]"
  "spec_expected_next STEP11 = [(KEY_POWER, True)]"
  "spec_expected_next STEP_DEBUG1 = [(KEY_POWER, True), (KEY_VOLUMEDOWN, False)]"
  by (simp_all add: spec_expected_next_def spec_edges_def)

text \<open>
  Claim C3, as amended. In every state, an event (key code, pressed) that the
  specification's table does not expect there, the right code with the wrong pressed
  value included, leaves every static but \<open>state\<close> as it was and sets \<open>state\<close> to
  \<open>NONE\<close>. Consequently a sequence of events whose last event is not expected in the
  state reached before it ends in \<open>NONE\<close>, and that last event does nothing else. (The
  claim as stated, for every sequence that is not a defined path, does not hold:
  recognition starts again after a reset, so a sequence with an earlier mismatch can end
  in another state.)
\<close>

theorem unexpected_event_resets:
  assumes "(c, v \<noteq> 0) \<notin> set (spec_expected_next (state g))"
  shows "oem_check_force_dump_key dl c v g = Inr (g\<lparr>state := NONE\<rparr>)
    \<and> (\<forall>es g0. run_keys dl es g0 = Inr g \<longrightarrow>
          run_keys dl (es @ [(c, v)]) g0 = Inr (g\<lparr>state := NONE\<rparr>))"
proof -
  from assms have "oem_check_force_dump_key dl c v g = Inr (g\<lparr>state := NONE\<rparr>)"
    by (cases "state g")
       (auto simp add: spec_expected_next_simps oem_check_force_dump_key_def)
  then show ?thesis by (simp add: run_keys_append)
qed

theorem unexpected_event_resets_witness:
  "(KEY_POWER, (1 :: s32) \<noteq> 0) \<notin> set (spec_expected_next STEP1)
   \<and> (KEY_VOLUMEUP, (1 :: s32) \<noteq> 0) \<notin> set (spec_expected_next STEP1)
   \<and> run_keys True [(KEY_VOLUMEUP, 1), (KEY_POWER, 1)] (initial_globals True) =
       Inr (initial_globals True)
   \<and> run_keys True [(KEY_VOLUMEUP, 1), (KEY_VOLUMEUP, 1)] (initial_globals True) =
       Inr (initial_globals True)"
proof -
  let ?g = "(initial_globals True)\<lparr>state := STEP1\<rparr>"
  have reach: "run_keys True [(KEY_VOLUMEUP, 1)] (initial_globals True) = Inr ?g"
    by (simp add: oem_check_force_dump_key_def initial_globals_def)
  have idle: "?g\<lparr>state := NONE\<rparr> = initial_globals True"
    by (simp add: initial_globals_def)
  have 1: "(KEY_POWER, (1 :: s32) \<noteq> 0) \<notin> set (spec_expected_next (state ?g))"
    by (simp add: spec_expected_next_simps key_codes_distinct)
  have 2: "(KEY_VOLUMEUP, (1 :: s32) \<noteq> 0) \<notin> set (spec_expected_next (state ?g))"
    by (simp add: spec_expected_next_simps)
  from unexpected_event_resets [OF 1, of True] reach idle
  have 3: "run_keys True ([(KEY_VOLUMEUP, 1)] @ [(KEY_POWER, 1)]) (initial_globals True) =
       Inr (initial_globals True)"
    by metis
  from unexpected_event_resets [OF 2, of True] reach idle
  have 4: "run_keys True ([(KEY_VOLUMEUP, 1)] @ [(KEY_VOLUMEUP, 1)]) (initial_globals True) =
       Inr (initial_globals True)"
    by metis
  from 1 2 3 4 show ?thesis by simp
qed

theorem restart_after_reset_counterexample:
  "\<not> spec_follows NONE [(KEY_POWER, 1), (KEY_VOLUMEUP, 1)]
   \<and> run_keys True [(KEY_POWER, 1), (KEY_VOLUMEUP, 1)] (initial_globals True) =
       Inr ((initial_globals True)\<lparr>state := STEP1\<rparr>)
   \<and> state ((initial_globals True)\<lparr>state := STEP1\<rparr>) \<noteq> NONE"
  by (simp add: spec_next_def spec_edges_def pressed_def key_codes_distinct
        oem_check_force_dump_key_def initial_globals_def)

section \<open>Properties of the debug branch and of the worker\<close>

lemma step_STEP10_voldown:
  "state g = STEP10 \<Longrightarrow> v \<noteq> 0 \<Longrightarrow>
     oem_check_force_dump_key dl KEY_VOLUMEDOWN v g = Inr (g\<lparr>state := STEP_DEBUG1\<rparr>)"
  by (simp add: oem_check_force_dump_key_def key_codes_distinct)

lemma step_DEBUG1_power:
  "state g = STEP_DEBUG1 \<Longrightarrow> v \<noteq> 0 \<Longrightarrow>
     oem_check_force_dump_key dl KEY_POWER v g =
       Inr (g\<lparr>selinux_switch := 1, message_state := 1, smg_work_pending := True,
              state := NONE\<rparr>)"
  by (simp add: oem_check_force_dump_key_def queue_work_def set_oem_selinux_state_def)

lemma step_DEBUG1_voldown_released:
  "state g = STEP_DEBUG1 \<Longrightarrow>
     oem_check_force_dump_key dl KEY_VOLUMEDOWN 0 g =
       Inr (g\<lparr>message_state := 2, smg_work_pending := True, state := NONE\<rparr>)"
  by (simp add: oem_check_force_dump_key_def queue_work_def key_codes_distinct)

text \<open>
  A run of the worker on a pending work: it calls \<open>send_msg\<close> once, with the text of
  the kind stored in \<open>message_state\<close>, and then clears \<open>message_state\<close>. The send is
  best effort: \<open>send_msg\<close> hands the message to the transport when the socket exists
  and the buffer is allocated, and returns without effect otherwise.
\<close>

lemma work_debug_enabled:
  "message_state g = 1 \<Longrightarrow> smg_work_pending g \<Longrightarrow>
     run_smg_work a g =
       g\<lparr>smg_work_pending := False,
         unicast := unicast g @ (if nl_sk g \<and> a then [(fd g, ''Enable DEBUG!'')] else []),
         message_state := 0\<rparr>"
  by (simp add: run_smg_work_def send_msg_worker_def send_msg_def strlcpy_def MAX_MSGSIZE_def)

lemma work_force_serial:
  "message_state g = 2 \<Longrightarrow> smg_work_pending g \<Longrightarrow>
     run_smg_work a g =
       g\<lparr>smg_work_pending := False, serial_inits := Suc (serial_inits g),
         unicast := unicast g
           @ (if nl_sk g \<and> a then [(fd g, ''ENABLE_OEM_FORCE_SERIAL'')] else []),
         message_state := 0\<rparr>"
  by (simp add: run_smg_work_def send_msg_worker_def send_msg_def strlcpy_def MAX_MSGSIZE_def
        msm_serial_oem_init_def)

lemma work_calls_send_debug_enabled:
  "message_state g = 1 \<Longrightarrow> smg_work_pending g \<Longrightarrow>
     run_smg_work a g =
       (send_msg a (Some ''Enable DEBUG!'') (g\<lparr>smg_work_pending := False\<rparr>))
         \<lparr>message_state := 0\<rparr>"
  by (simp add: run_smg_work_def send_msg_worker_def)

lemma work_calls_send_force_serial:
  "message_state g = 2 \<Longrightarrow> smg_work_pending g \<Longrightarrow>
     run_smg_work a g =
       (send_msg a (Some ''ENABLE_OEM_FORCE_SERIAL'')
          (msm_serial_oem_init (g\<lparr>smg_work_pending := False\<rparr>)))
         \<lparr>message_state := 0\<rparr>"
  by (simp add: run_smg_work_def send_msg_worker_def)

lemma work_idle: "\<not> smg_work_pending g \<Longrightarrow> run_smg_work a g = g"
  by (simp add: run_smg_work_def)

text \<open>
  Claim C4. In \<open>STEP10\<close>, the tenth state of the primary sequence, volume-down pressed
  leads to \<open>STEP_DEBUG1\<close>. There, power pressed sets \<open>selinux_switch\<close> (the debug
  switch) to 1, stores the kind 1 in \<open>message_state\<close> and queues the work; the worker's
  drain is then one call of \<open>send_msg\<close> with "Enable DEBUG!". Volume-down released
  stores the kind 2 and queues the work; the worker's drain is then one call of
  \<open>msm_serial_oem_init\<close> followed by one call of \<open>send_msg\<close> with
  "ENABLE_OEM_FORCE_SERIAL". Both events leave the recognizer in \<open>NONE\<close>. This holds
  whether or not the socket exists and whatever the allocation of the buffer returns
  (\<open>a\<close>): the call hands the text to the transport, addressed to the cached peer, when
  both succeed, and nothing otherwise.
\<close>

theorem debug_branch:
  assumes "state g = STEP10" and "v \<noteq> 0" and "w \<noteq> 0"
  shows "oem_check_force_dump_key dl KEY_VOLUMEDOWN v g = Inr (g\<lparr>state := STEP_DEBUG1\<rparr>)
    \<and> oem_check_force_dump_key dl KEY_POWER w (g\<lparr>state := STEP_DEBUG1\<rparr>) =
        Inr (g\<lparr>selinux_switch := 1, message_state := 1, smg_work_pending := True,
               state := NONE\<rparr>)
    \<and> run_smg_work a
          (g\<lparr>selinux_switch := 1, message_state := 1, smg_work_pending := True,
             state := NONE\<rparr>) =
        (send_msg a (Some ''Enable DEBUG!'')
           (g\<lparr>selinux_switch := 1, message_state := 1, smg_work_pending := True,
              state := NONE, smg_work_pending := False\<rparr>))\<lparr>message_state := 0\<rparr>
    \<and> run_smg_work a
          (g\<lparr>selinux_switch := 1, message_state := 1, smg_work_pending := True,
             state := NONE\<rparr>) =
        g\<lparr>selinux_switch := 1, message_state := 0, smg_work_pending := False, state := NONE,
          unicast := unicast g @ (if nl_sk g \<and> a then [(fd g, ''Enable DEBUG!'')] else [])\<rparr>
    \<and> oem_check_force_dump_key dl KEY_VOLUMEDOWN 0 (g\<lparr>state := STEP_DEBUG1\<rparr>) =
        Inr (g\<lparr>message_state := 2, smg_work_pending := True, state := NONE\<rparr>)
    \<and> run_smg_work a (g\<lparr>message_state := 2, smg_work_pending := True, state := NONE\<rparr>) =
        (send_msg a (Some ''ENABLE_OEM_FORCE_SERIAL'')
           (msm_serial_oem_init
              (g\<lparr>message_state := 2, smg_work_pending := True, state := NONE,
                 smg_work_pending := False\<rparr>)))\<lparr>message_state := 0\<rparr>
    \<and> run_smg_work a (g\<lparr>message_state := 2, smg_work_pending := True, state := NONE\<rparr>) =
        g\<lparr>message_state := 0, smg_work_pending := False, state := NONE,
          serial_inits := Suc (serial_inits g),
          unicast := unicast g
            @ (if nl_sk g \<and> a then [(fd g, ''ENABLE_OEM_FORCE_SERIAL'')] else [])\<rparr>"
proof (intro conjI)
  show "oem_check_force_dump_key dl KEY_VOLUMEDOWN v g = Inr (g\<lparr>state := STEP_DEBUG1\<rparr>)"
    using assms by (simp add: step_STEP10_voldown)
  show "oem_check_force_dump_key dl KEY_POWER w (g\<lparr>state := STEP_DEBUG1\<rparr>) =
        Inr (g\<lparr>selinux_switch := 1, message_state := 1, smg_work_pending := True,
               state := NONE\<rparr>)"
    using assms by (simp add: step_DEBUG1_power)
  show "run_smg_work a
          (g\<lparr>selinux_switch := 1, message_state := 1, smg_work_pending := True,
             state := NONE\<rparr>) =
        (send_msg a (Some ''Enable DEBUG!'')
           (g\<lparr>selinux_switch := 1, message_state := 1, smg_work_pending := True,
              state := NONE, smg_work_pending := False\<rparr>))\<lparr>message_state := 0\<rparr>"
    by (rule work_calls_send_debug_enabled) simp_all
  show "run_smg_work a
          (g\<lparr>selinux_switch := 1, message_state := 1, smg_work_pending := True,
             state := NONE\<rparr>) =
        g\<lparr>selinux_switch := 1, message_state := 0, smg_work_pending := False, state := NONE,
          unicast := unicast g @ (if nl_sk g \<and> a then [(fd g, ''Enable DEBUG!'')] else [])\<rparr>"
    by (simp add: work_debug_enabled)
  show "oem_check_force_dump_key dl KEY_VOLUMEDOWN 0 (g\<lparr>state := STEP_DEBUG1\<rparr>) =
        Inr (g\<lparr>message_state := 2, smg_work_pending := True, state := NONE\<rparr>)"
    by (simp add: step_DEBUG1_voldown_released)
  show "run_smg_work a (g\<lparr>message_state := 2, smg_work_pending := True, state := NONE\<rparr>) =
        (send_msg a (Some ''ENABLE_OEM_FORCE_SERIAL'')
           (msm_serial_oem_init
              (g\<lparr>message_state := 2, smg_work_pending := True, state := NONE,
                 smg_work_pending := False\<rparr>)))\<lparr>message_state := 0\<rparr>"
    by (rule work_calls_send_force_serial) simp_all
  show "run_smg_work a (g\<lparr>message_state := 2, smg_work_pending := True, state := NONE\<rparr>) =
        g\<lparr>message_state := 0, smg_work_pending := False, state := NONE,
          serial_inits := Suc (serial_inits g),
          unicast := unicast g
            @ (if nl_sk g \<and> a then [(fd g, ''ENABLE_OEM_FORCE_SERIAL'')] else [])\<rparr>"
    by (simp add: work_force_serial)
qed

theorem debug_branch_witness:
  "run_keys False (debug_sequence @ [(KEY_POWER, 1)]) (initial_globals True) =
     Inr ((initial_globals True)\<lparr>selinux_switch := 1, message_state := 1,
            smg_work_pending := True\<rparr>)
   \<and> run_smg_work True ((initial_globals True)\<lparr>selinux_switch := 1,
        message_state := 1, smg_work_pending := True\<rparr>) =
       (initial_globals True)\<lparr>selinux_switch := 1, message_state := 0,
          unicast := [(- 1, ''Enable DEBUG!'')]\<rparr>
   \<and> run_smg_work False ((initial_globals True)\<lparr>selinux_switch := 1,
        message_state := 1, smg_work_pending := True\<rparr>) =
       (initial_globals True)\<lparr>selinux_switch := 1, message_state := 0\<rparr>
   \<and> run_keys False (debug_sequence @ [(KEY_VOLUMEDOWN, 0)]) (initial_globals True) =
       Inr ((initial_globals True)\<lparr>message_state := 2, smg_work_pending := True\<rparr>)
   \<and> run_smg_work True ((initial_globals True)\<lparr>message_state := 2,
        smg_work_pending := True\<rparr>) =
       (initial_globals True)\<lparr>message_state := 0, serial_inits := 1,
          unicast := [(- 1, ''ENABLE_OEM_FORCE_SERIAL'')]\<rparr>
   \<and> run_smg_work False ((initial_globals True)\<lparr>message_state := 2,
        smg_work_pending := True\<rparr>) =
       (initial_globals True)\<lparr>message_state := 0, serial_inits := 1\<rparr>"
proof -
  let ?g = "(initial_globals True)\<lparr>state := STEP10\<rparr>"
  have reach: "run_keys False debug_sequence (initial_globals True) =
      Inr (?g\<lparr>state := STEP_DEBUG1\<rparr>)"
    using run_keys_debug [of False "initial_globals True"] by (simp add: initial_globals_def)
  have s: "state ?g = STEP10" and nz: "(1 :: s32) \<noteq> 0"
    by (simp_all add: initial_globals_def)
  note t = debug_branch [OF s nz nz, of False True]
  note f = debug_branch [OF s nz nz, of False False]
  note power = t [THEN conjunct2, THEN conjunct1]
  note drain1 = t [THEN conjunct2, THEN conjunct2, THEN conjunct2, THEN conjunct1]
  note drain1' = f [THEN conjunct2, THEN conjunct2, THEN conjunct2, THEN conjunct1]
  note release = t [THEN conjunct2, THEN conjunct2, THEN conjunct2, THEN conjunct2,
      THEN conjunct1]
  note drain2 = t [THEN conjunct2, THEN conjunct2, THEN conjunct2, THEN conjunct2,
      THEN conjunct2, THEN conjunct2]
  note drain2' = f [THEN conjunct2, THEN conjunct2, THEN conjunct2, THEN conjunct2,
      THEN conjunct2, THEN conjunct2]
  from power drain1 drain1' release drain2 drain2' reach show ?thesis
    by (simp add: run_keys_append initial_globals_def)
qed

text \<open>
  Claim C6. The kind of the pending notification is one variable, \<open>message_state\<close>, and
  the last writer wins. From \<open>STEP_DEBUG1\<close>, power pressed stores the kind 1
  (DebugEnabled) and queues the work; when the debug path is walked again and volume-down
  released before the worker has run, the kind 2 (OemForceSerial) replaces it and nothing
  has been sent yet. The worker then runs once: its drain is one call of \<open>send_msg\<close>,
  with "ENABLE_OEM_FORCE_SERIAL", after which \<open>message_state\<close> is 0, its value for no
  notification; "Enable DEBUG!" is never sent, and a further run of the work queue
  finds nothing pending and changes nothing. This holds whether or not the socket exists
  and whatever the allocation of the buffer returns (\<open>a\<close>): the one call hands the
  transport exactly one message when both succeed, and nothing otherwise.
\<close>

theorem last_writer_wins:
  assumes "state g = STEP_DEBUG1"
  shows "run_keys dl [(KEY_POWER, 1)] g =
           Inr (g\<lparr>selinux_switch := 1, message_state := 1, smg_work_pending := True,
                  state := NONE\<rparr>)
    \<and> run_keys dl ([(KEY_POWER, 1)] @ debug_sequence @ [(KEY_VOLUMEDOWN, 0)]) g =
           Inr (g\<lparr>selinux_switch := 1, message_state := 2, smg_work_pending := True,
                  state := NONE\<rparr>)
    \<and> run_smg_work a
         (g\<lparr>selinux_switch := 1, message_state := 2, smg_work_pending := True,
            state := NONE\<rparr>) =
         (send_msg a (Some ''ENABLE_OEM_FORCE_SERIAL'')
            (msm_serial_oem_init
               (g\<lparr>selinux_switch := 1, message_state := 2, smg_work_pending := True,
                  state := NONE, smg_work_pending := False\<rparr>)))\<lparr>message_state := 0\<rparr>
    \<and> run_smg_work a
         (g\<lparr>selinux_switch := 1, message_state := 2, smg_work_pending := True,
            state := NONE\<rparr>) =
         g\<lparr>selinux_switch := 1, message_state := 0, smg_work_pending := False, state := NONE,
           serial_inits := Suc (serial_inits g),
           unicast := unicast g
             @ (if nl_sk g \<and> a then [(fd g, ''ENABLE_OEM_FORCE_SERIAL'')] else [])\<rparr>
    \<and> run_smg_work b
         (run_smg_work a
            (g\<lparr>selinux_switch := 1, message_state := 2, smg_work_pending := True,
               state := NONE\<rparr>)) =
         run_smg_work a
           (g\<lparr>selinux_switch := 1, message_state := 2, smg_work_pending := True,
              state := NONE\<rparr>)"
proof -
  let ?g1 = "g\<lparr>selinux_switch := 1, message_state := 1, smg_work_pending := True\<rparr>"
  let ?g2 = "g\<lparr>selinux_switch := 1, message_state := 2, smg_work_pending := True,
               state := NONE\<rparr>"
  have 1: "run_keys dl [(KEY_POWER, 1)] g = Inr (?g1\<lparr>state := NONE\<rparr>)"
    using assms by (simp add: step_DEBUG1_power)
  have 2: "run_keys dl debug_sequence (?g1\<lparr>state := NONE\<rparr>) = Inr (?g1\<lparr>state := STEP_DEBUG1\<rparr>)"
    by (rule run_keys_debug)
  have 3: "run_keys dl [(KEY_VOLUMEDOWN, 0)] (?g1\<lparr>state := STEP_DEBUG1\<rparr>) = Inr ?g2"
    by (simp add: step_DEBUG1_voldown_released)
  have 4: "run_keys dl ([(KEY_POWER, 1)] @ debug_sequence @ [(KEY_VOLUMEDOWN, 0)]) g = Inr ?g2"
    by (simp only: run_keys_append 1 2 3 sum.case)
  have 5: "run_smg_work a ?g2 =
         (send_msg a (Some ''ENABLE_OEM_FORCE_SERIAL'')
            (msm_serial_oem_init (?g2\<lparr>smg_work_pending := False\<rparr>)))\<lparr>message_state := 0\<rparr>"
    by (rule work_calls_send_force_serial) simp_all
  have 6: "run_smg_work a ?g2 =
         g\<lparr>selinux_switch := 1, message_state := 0, smg_work_pending := False, state := NONE,
           serial_inits := Suc (serial_inits g),
           unicast := unicast g
             @ (if nl_sk g \<and> a then [(fd g, ''ENABLE_OEM_FORCE_SERIAL'')] else [])\<rparr>"
    by (simp add: work_force_serial)
  have 7: "run_smg_work b (run_smg_work a ?g2) = run_smg_work a ?g2"
    by (simp only: 6) (simp add: work_idle)
  from 1 4 5 6 7 show ?thesis by blast
qed

theorem last_writer_wins_witness:
  "run_keys False
     (debug_sequence @ [(KEY_POWER, 1)] @ debug_sequence @ [(KEY_VOLUMEDOWN, 0)])
     (initial_globals True) =
     Inr ((initial_globals True)\<lparr>selinux_switch := 1, message_state := 2,
            smg_work_pending := True\<rparr>)
   \<and> run_smg_work True ((initial_globals True)\<lparr>selinux_switch := 1,
        message_state := 2, smg_work_pending := True\<rparr>) =
       (initial_globals True)\<lparr>selinux_switch := 1, message_state := 0, serial_inits := 1,
          unicast := [(- 1, ''ENABLE_OEM_FORCE_SERIAL'')]\<rparr>
   \<and> run_smg_work False ((initial_globals True)\<lparr>selinux_switch := 1,
        message_state := 2, smg_work_pending := True\<rparr>) =
       (initial_globals True)\<lparr>selinux_switch := 1, message_state := 0, serial_inits := 1\<rparr>"
proof -
  let ?g = "(initial_globals True)\<lparr>state := STEP_DEBUG1\<rparr>"
  have reach: "run_keys False debug_sequence (initial_globals True) = Inr ?g"
    using run_keys_debug [of False "initial_globals True"] by (simp add: initial_globals_def)
  have s: "state ?g = STEP_DEBUG1"
    by (simp add: initial_globals_def)
  note t = last_writer_wins [OF s, of False True True]
  note f = last_writer_wins [OF s, of False False True]
  note both = t [THEN conjunct2, THEN conjunct1]
  note drain = t [THEN conjunct2, THEN conjunct2, THEN conjunct2, THEN conjunct1]
  note drain' = f [THEN conjunct2, THEN conjunct2, THEN conjunct2, THEN conjunct1]
  from both drain drain' reach show ?thesis
    by (simp add: run_keys_append initial_globals_def)
qed

section \<open>Properties of the netlink channel\<close>

text \<open>
  Only an accepted inbound message changes the cached peer address \<open>fd\<close>, and every
  message goes to the address cached when it is sent.
\<close>

lemma key_keeps_channel:
  "oem_check_force_dump_key dl c v g = Inr g' \<Longrightarrow>
     fd g' = fd g \<and> unicast g' = unicast g \<and> nl_sk g' = nl_sk g"
  by (cases "state g")
     (auto simp add: oem_check_force_dump_key_def queue_work_def set_oem_selinux_state_def
           split: if_splits)

lemma send_msg_keeps_peer: "fd (send_msg a m g) = fd g" "nl_sk (send_msg a m g) = nl_sk g"
  by (simp_all add: send_msg_def split: option.splits)

lemma send_msg_unicast:
  "unicast (send_msg a (Some m) g) =
     unicast g @ (if nl_sk g \<and> a then [(fd g, strlcpy m MAX_MSGSIZE)] else [])"
  by (simp add: send_msg_def)

lemma send_msg_targets:
  "fst ` set (unicast (send_msg a m g)) \<subseteq> fst ` set (unicast g) \<union> {fd g}"
  by (auto simp add: send_msg_def split: option.splits)

lemma worker_keeps_peer: "fd (run_smg_work a g) = fd g" "nl_sk (run_smg_work a g) = nl_sk g"
  by (simp_all add: run_smg_work_def send_msg_worker_def Let_def send_msg_keeps_peer
        msm_serial_oem_init_def)

lemma worker_targets:
  "fst ` set (unicast (run_smg_work a g)) \<subseteq> fst ` set (unicast g) \<union> {fd g}"
proof -
  have "fst ` set (unicast (send_msg a m (g\<lparr>smg_work_pending := False\<rparr>)))
          \<subseteq> fst ` set (unicast g) \<union> {fd g}" for m
    using send_msg_targets [of a m "g\<lparr>smg_work_pending := False\<rparr>"] by simp
  moreover have "fst ` set (unicast (send_msg a m
                   (msm_serial_oem_init (g\<lparr>smg_work_pending := False\<rparr>))))
          \<subseteq> fst ` set (unicast g) \<union> {fd g}" for m
    using send_msg_targets [of a m "msm_serial_oem_init (g\<lparr>smg_work_pending := False\<rparr>)"]
    by (simp add: msm_serial_oem_init_def)
  ultimately show ?thesis
    by (auto simp add: run_smg_work_def send_msg_worker_def Let_def)
qed

lemma recv_dropped: "\<not> accepted_input (Nl_input skb) \<Longrightarrow> recv_nlmsg skb g = g"
  by (auto simp add: recv_nlmsg_def not_le)

lemma recv_accepted:
  "accepted_input (Nl_input skb) \<Longrightarrow> recv_nlmsg skb g = g\<lparr>fd := nlmsg_pid skb\<rparr>"
  by (auto simp add: recv_nlmsg_def not_less)

lemma oem_do_keeps_peer:
  assumes "oem_do x g = Inr g'" and "\<not> accepted_input x"
  shows "fd g' = fd g \<and> nl_sk g' = nl_sk g
    \<and> fst ` set (unicast g') \<subseteq> fst ` set (unicast g) \<union> {fd g}"
proof (cases x)
  case (Key_event c v dl)
  with assms key_keeps_channel [of dl c v g g'] show ?thesis by auto
next
  case (Work_run a)
  with assms worker_keeps_peer [of a g] worker_targets [of a g] show ?thesis by auto
next
  case (Sync_mdm_dump a)
  with assms send_msg_keeps_peer [of a "Some ''FORCE_MDM_DUMP_SYNC''" g]
    send_msg_targets [of a "Some ''FORCE_MDM_DUMP_SYNC''" g]
  show ?thesis by (auto simp add: send_msg_sync_mdm_dump_def)
next
  case (Nl_input skb)
  with assms recv_dropped [of skb g] show ?thesis by auto
qed

lemma oem_run_keeps_peer:
  assumes "oem_run xs g = Inr g'" and "\<forall>x\<in>set xs. \<not> accepted_input x"
  shows "fd g' = fd g \<and> nl_sk g' = nl_sk g
    \<and> fst ` set (unicast g') \<subseteq> fst ` set (unicast g) \<union> {fd g}"
  using assms
proof (induction xs arbitrary: g)
  case Nil
  then show ?case by auto
next
  case (Cons x xs)
  from Cons.prems obtain g1 where 1: "oem_do x g = Inr g1" and 2: "oem_run xs g1 = Inr g'"
    by (auto split: sum.splits)
  from Cons.prems have nx: "\<not> accepted_input x" and nxs: "\<forall>y\<in>set xs. \<not> accepted_input y"
    by auto
  from oem_do_keeps_peer [OF 1 nx] Cons.IH [OF 2 nxs] show ?case by (simp; blast)
qed

lemma oem_run_append:
  "oem_run (xs @ ys) g = (case oem_run xs g of Inl p \<Rightarrow> Inl p | Inr g' \<Rightarrow> oem_run ys g')"
  by (induction xs arbitrary: g) (auto split: sum.splits)

text \<open>
  Claim C7, as amended. In every state the driver reaches from its initial statics
  without accepting an inbound message (by key events, runs of the worker, synchronous
  sends and dropped inbound messages), the cached peer address is -1, the initialiser of
  \<open>fd\<close>, and not 0. Every message handed to the transport up to then is addressed to
  -1 (port id 4294967295), and a send in that state returns normally: it hands the
  transport one more message for that address when the socket exists and the buffer is
  allocated, and changes nothing otherwise. What the transport does with a message for
  that address is outside the driver.
\<close>

theorem no_peer_learned:
  assumes "\<forall>x\<in>set xs. \<not> accepted_input x" and "oem_run xs (initial_globals sk) = Inr g"
  shows "fd g = - 1 \<and> fd g \<noteq> 0 \<and> fst ` set (unicast g) \<subseteq> {- 1}
    \<and> oem_run (xs @ [Sync_mdm_dump a]) (initial_globals sk) =
        Inr (g\<lparr>unicast :=
               unicast g @ (if sk \<and> a then [(- 1, ''FORCE_MDM_DUMP_SYNC'')] else [])\<rparr>)"
proof -
  from oem_run_keeps_peer [OF assms(2) assms(1)]
  have fd: "fd g = - 1" and sk: "nl_sk g = sk" and u: "fst ` set (unicast g) \<subseteq> {- 1}"
    by (auto simp add: initial_globals_def)
  have "send_msg_sync_mdm_dump a g =
      g\<lparr>unicast := unicast g @ (if sk \<and> a then [(- 1, ''FORCE_MDM_DUMP_SYNC'')] else [])\<rparr>"
    using fd sk by (simp add: send_msg_sync_mdm_dump_def send_msg_def strlcpy_def MAX_MSGSIZE_def)
  with fd u assms(2) show ?thesis by (simp add: oem_run_append)
qed

theorem no_peer_learned_witness:
  "oem_run
     [Key_event KEY_VOLUMEUP 1 False, Work_run True,
      Nl_input \<lparr>skb_len = 4, nlmsg_len = 16, nlmsg_pid = 77\<rparr>, Sync_mdm_dump True]
     (initial_globals True) =
     Inr ((initial_globals True)\<lparr>state := STEP1,
            unicast := [(4294967295, ''FORCE_MDM_DUMP_SYNC'')]\<rparr>)"
proof -
  let ?xs = "[Key_event KEY_VOLUMEUP 1 False, Work_run True,
      Nl_input \<lparr>skb_len = 4, nlmsg_len = 16, nlmsg_pid = 77\<rparr>]"
  have 1: "\<forall>x\<in>set ?xs. \<not> accepted_input x"
    by (simp add: NLMSG_HDRLEN_def)
  have 2: "oem_run ?xs (initial_globals True) = Inr ((initial_globals True)\<lparr>state := STEP1\<rparr>)"
    by (simp add: oem_check_force_dump_key_def run_smg_work_def recv_nlmsg_def
          NLMSG_HDRLEN_def initial_globals_def)
  from no_peer_learned [OF 1 2, of True] show ?thesis
    by (simp add: initial_globals_def)
qed

theorem initial_peer_counterexample:
  "oem_run [] (initial_globals True) = Inr (initial_globals True)
   \<and> fd (initial_globals True) \<noteq> 0
   \<and> sint (fd (initial_globals True)) = - 1
   \<and> unicast (send_msg True (Some ''FORCE_MDM_DUMP_SYNC'') (initial_globals True)) =
       [(4294967295, ''FORCE_MDM_DUMP_SYNC'')]"
  by (simp add: initial_globals_def send_msg_def strlcpy_def MAX_MSGSIZE_def)

text \<open>
  Claim C8. An inbound message whose \<open>nlmsg_len\<close> is at least \<open>NLMSG_HDRLEN\<close> and at
  most the length of its buffer replaces the cached peer address by its sender's port
  id, whatever address was cached before; any other inbound message is dropped and
  changes nothing. Until the next accepted inbound message the address stays what it
  is, so the next send, after any key events, worker runs, synchronous sends and dropped
  messages, goes to the new address (it goes out when the socket exists and the buffer
  is allocated).
\<close>

theorem recv_learns_peer:
  assumes "oem_run xs (recv_nlmsg skb g) = Inr g'" and "\<forall>x\<in>set xs. \<not> accepted_input x"
  shows "(if NLMSG_HDRLEN \<le> nlmsg_len skb \<and> nlmsg_len skb \<le> skb_len skb
          then recv_nlmsg skb g = g\<lparr>fd := nlmsg_pid skb\<rparr> \<and> fd g' = nlmsg_pid skb
          else recv_nlmsg skb g = g \<and> fd g' = fd g)
      \<and> unicast (send_msg a (Some m) g') =
          unicast g' @ (if nl_sk g \<and> a then [(fd g', strlcpy m MAX_MSGSIZE)] else [])"
proof -
  from oem_run_keeps_peer [OF assms]
  have 1: "fd g' = fd (recv_nlmsg skb g)" and 2: "nl_sk g' = nl_sk (recv_nlmsg skb g)"
    by auto
  have 3: "nl_sk (recv_nlmsg skb g) = nl_sk g" by (simp add: recv_nlmsg_def)
  show ?thesis
    using 1 2 3 recv_accepted [of skb g] recv_dropped [of skb g]
    by (simp add: send_msg_unicast)
qed

theorem recv_learns_peer_witness:
  "recv_nlmsg \<lparr>skb_len = 20, nlmsg_len = 16, nlmsg_pid = 4242\<rparr>
     ((initial_globals True)\<lparr>fd := 5\<rparr>) = (initial_globals True)\<lparr>fd := 4242\<rparr>
   \<and> unicast (send_msg True (Some ''Enable DEBUG!'')
        ((initial_globals True)\<lparr>fd := 4242, state := STEP1\<rparr>)) = [(4242, ''Enable DEBUG!'')]
   \<and> recv_nlmsg \<lparr>skb_len = 20, nlmsg_len = 24, nlmsg_pid = 4242\<rparr>
       ((initial_globals True)\<lparr>fd := 5\<rparr>) = (initial_globals True)\<lparr>fd := 5\<rparr>"
proof -
  let ?g = "(initial_globals True)\<lparr>fd := 5\<rparr>"
  let ?good = "\<lparr>skb_len = 20, nlmsg_len = 16, nlmsg_pid = 4242\<rparr> :: sk_buff"
  let ?bad = "\<lparr>skb_len = 20, nlmsg_len = 24, nlmsg_pid = 4242\<rparr> :: sk_buff"
  let ?xs = "[Key_event KEY_VOLUMEUP 1 False]"
  have n: "\<forall>x\<in>set ?xs. \<not> accepted_input x" by simp
  have 1: "oem_run ?xs (recv_nlmsg ?good ?g) =
      Inr ((initial_globals True)\<lparr>fd := 4242, state := STEP1\<rparr>)"
    by (simp add: recv_nlmsg_def NLMSG_HDRLEN_def oem_check_force_dump_key_def
          initial_globals_def)
  have 2: "oem_run [] (recv_nlmsg ?bad ?g) = Inr ?g"
    by (simp add: recv_nlmsg_def NLMSG_HDRLEN_def)
  have e: "\<forall>x\<in>set ([] :: oem_op list). \<not> accepted_input x" by simp
  from recv_learns_peer [OF 1 n, of True "''Enable DEBUG!''"]
    recv_learns_peer [OF 2 e, of True "''Enable DEBUG!''"]
  show ?thesis
    by (simp add: NLMSG_HDRLEN_def initial_globals_def strlcpy_def MAX_MSGSIZE_def)
qed

section \<open>Properties of the task scan\<close>

lemma strncmp_zero_iff: "strncmp a b n = 0 \<longleftrightarrow> take n a = take n b"
  by (induction a b n rule: strncmp.induct) auto

lemma strcmp_zero_iff: "strcmp a b = 0 \<longleftrightarrow> a = b"
  by (induction a b rule: strcmp.induct) auto

lemma take_eq_short:
  assumes "length a < n"
  shows "take n a = take n b \<longleftrightarrow> a = b"
proof
  assume eq: "take n a = take n b"
  with assms have "length (take n b) < n" by (metis take_all less_imp_le_nat)
  then have "length b < n" by (simp add: min_def split: if_splits)
  with assms eq show "a = b" by simp
qed simp

lemma take_eq_prefix: "take (length p) c = p \<longleftrightarrow> prefix p c"
  by (metis append_eq_conv_conj prefix_def)

lemma binder_prefix: "strncmp c ''Binder:'' 7 = 0 \<longleftrightarrow> prefix ''Binder:'' c"
proof -
  have l: "length ''Binder:'' = 7" by simp
  have "strncmp c ''Binder:'' 7 = 0 \<longleftrightarrow> take 7 c = ''Binder:''"
    by (simp only: strncmp_zero_iff) simp
  also have "\<dots> \<longleftrightarrow> prefix ''Binder:'' c"
    by (rule take_eq_prefix [of "''Binder:''" c, unfolded l])
  finally show ?thesis .
qed

lemma exact_match:
  "length c < TASK_COMM_LEN \<Longrightarrow> strncmp c name TASK_COMM_LEN = 0 \<longleftrightarrow> c = name"
  by (simp only: strncmp_zero_iff take_eq_short)

lemma find_task_by_name_spec:
  assumes "length (comm t) < TASK_COMM_LEN"
  shows "find_task_by_name t name = spec_match t name"
  using assms
  by (auto simp add: find_task_by_name_def spec_match_def exact_match binder_prefix
        strcmp_zero_iff simp del: strncmp.simps split: option.splits)

lemma trace_loop_find:
  "trace_loop name ts =
     (case find (\<lambda>t. find_task_by_name t name) ts of
        None \<Rightarrow> []
      | Some t \<Rightarrow> [Do_send_sig_info SIGQUIT t, Sig_msleep 500])"
  by (induction ts) auto

lemma tombstone_loop_find:
  "tombstone_loop name ps =
     (case find (\<lambda>p. strncmp (comm p) name TASK_COMM_LEN = 0) ps of
        None \<Rightarrow> []
      | Some p \<Rightarrow> [Do_send_sig_info SIGNAL_DEBUGGER p, Sig_msleep 500])"
  by (induction ps) auto

lemma find_cong_set: "(\<And>x. x \<in> set xs \<Longrightarrow> P x = Q x) \<Longrightarrow> find P xs = find Q xs"
  by (induction xs) auto

lemma find_Some_set: "find P xs = Some x \<Longrightarrow> x \<in> set xs \<and> P x"
  by (induction xs) (auto split: if_splits)

lemma leaders_are_threads: "set (for_each_process tbl) \<subseteq> set (for_each_process_thread tbl)"
  by (auto simp add: for_each_process_def for_each_process_thread_def)

lemma wf_leader:
  "wf_table tbl \<Longrightarrow> p \<in> set (for_each_process tbl) \<Longrightarrow> group_leader_pid p = pid p"
  by (auto simp add: wf_table_def for_each_process_def list_all_iff)

lemma wf_pid_inj:
  "wf_table tbl \<Longrightarrow> a \<in> set (for_each_process_thread tbl) \<Longrightarrow>
   b \<in> set (for_each_process_thread tbl) \<Longrightarrow> pid a = pid b \<Longrightarrow> a = b"
  by (auto simp add: wf_table_def distinct_map dest: inj_onD)

lemma heuristic_leads:
  "find_task_by_name t name \<Longrightarrow> strncmp (comm t) name TASK_COMM_LEN \<noteq> 0 \<Longrightarrow>
     group_leader_pid t = pid t"
  by (simp add: find_task_by_name_def split: if_splits)

text \<open>
  Claim C5, as amended. For every process table whose command names fit the 16 bytes of
  \<open>comm\<close> and every searched name, \<open>find_task_by_name\<close> holds for a task exactly when
  its command name equals the searched name, or its name begins with "Binder:" and it
  leads its thread group and its uid is 1000 and its parent is named "main". The scan of
  \<open>send_sig_to_get_trace\<close> signals the first task in scan order for which that holds,
  and does nothing when there is none. So over a table with one exact match and one
  heuristic-only match it takes whichever of the two is scanned first (the exact match
  when it comes first or is alone, the heuristic match when it comes first or is alone),
  and nothing when neither is there.
\<close>

theorem first_match_wins:
  assumes "\<forall>t\<in>set (for_each_process_thread tbl). length (comm t) < TASK_COMM_LEN"
  shows "(\<forall>t\<in>set (for_each_process_thread tbl). find_task_by_name t name = spec_match t name)
    \<and> send_sig_to_get_trace name tbl =
        (case find (\<lambda>t. spec_match t name) (for_each_process_thread tbl) of
           None \<Rightarrow> []
         | Some t \<Rightarrow> [Do_send_sig_info SIGQUIT t, Sig_msleep 500])"
proof -
  have 1: "\<forall>t\<in>set (for_each_process_thread tbl). find_task_by_name t name = spec_match t name"
    using assms by (simp add: find_task_by_name_spec)
  then have "find (\<lambda>t. find_task_by_name t name) (for_each_process_thread tbl)
      = find (\<lambda>t. spec_match t name) (for_each_process_thread tbl)"
    by (intro find_cong_set) simp
  with 1 show ?thesis by (simp add: send_sig_to_get_trace_def trace_loop_find)
qed

theorem first_match_wins_witness:
  "send_sig_to_get_trace ''system_server''
       [(other_task, []), (exact_task, []), (binder_task, [])]
     = [Do_send_sig_info SIGQUIT exact_task, Sig_msleep 500]
   \<and> send_sig_to_get_trace ''system_server'' [(other_task, []), (binder_task, [])]
       = [Do_send_sig_info SIGQUIT binder_task, Sig_msleep 500]
   \<and> send_sig_to_get_trace ''system_server'' [(other_task, [])] = []"
proof -
  let ?t1 = "[(other_task, []), (exact_task, []), (binder_task, [])]"
  let ?t2 = "[(other_task, []), (binder_task, [])]"
  let ?t3 = "[(other_task, [])]"
  have "\<forall>t\<in>set (for_each_process_thread ?t1). length (comm t) < TASK_COMM_LEN"
    by (simp add: for_each_process_thread_def exact_task_def binder_task_def other_task_def
          TASK_COMM_LEN_def)
  from first_match_wins [OF this, of "''system_server''"]
  have 1: "send_sig_to_get_trace ''system_server'' ?t1 =
      [Do_send_sig_info SIGQUIT exact_task, Sig_msleep 500]"
    by (simp add: for_each_process_thread_def spec_match_def exact_task_def binder_task_def
          other_task_def)
  have "\<forall>t\<in>set (for_each_process_thread ?t2). length (comm t) < TASK_COMM_LEN"
    by (simp add: for_each_process_thread_def binder_task_def other_task_def TASK_COMM_LEN_def)
  from first_match_wins [OF this, of "''system_server''"]
  have 2: "send_sig_to_get_trace ''system_server'' ?t2 =
      [Do_send_sig_info SIGQUIT binder_task, Sig_msleep 500]"
    by (simp add: for_each_process_thread_def spec_match_def binder_task_def other_task_def)
  have "\<forall>t\<in>set (for_each_process_thread ?t3). length (comm t) < TASK_COMM_LEN"
    by (simp add: for_each_process_thread_def other_task_def TASK_COMM_LEN_def)
  from first_match_wins [OF this, of "''system_server''"]
  have 3: "send_sig_to_get_trace ''system_server'' ?t3 = []"
    by (simp add: for_each_process_thread_def spec_match_def other_task_def)
  from 1 2 3 show ?thesis by simp
qed

theorem heuristic_before_exact_counterexample:
  "strncmp (comm exact_task) ''system_server'' TASK_COMM_LEN = 0
   \<and> find_task_by_name binder_task ''system_server''
   \<and> strncmp (comm binder_task) ''system_server'' TASK_COMM_LEN \<noteq> 0
   \<and> send_sig_to_get_trace ''system_server'' [(binder_task, []), (exact_task, [])]
       = [Do_send_sig_info SIGQUIT binder_task, Sig_msleep 500]"
  by (simp add: exact_task_def binder_task_def send_sig_to_get_trace_def
        for_each_process_thread_def find_task_by_name_def strncmp_zero_iff strcmp_zero_iff
        TASK_COMM_LEN_def del: strncmp.simps)

text \<open>
  Claim C10, as amended. \<open>send_sig_to_get_tombstone\<close> signals the first thread-group
  leader whose command name compares equal to the searched name within \<open>TASK_COMM_LEN\<close>
  bytes, and nothing else: it does not apply the Binder heuristic and does not visit the
  other threads. So in a well-formed process table, a task that \<open>find_task_by_name\<close>
  accepts only through the heuristic is never delivered the tombstone signal, and it is
  delivered the trace signal by \<open>send_sig_to_get_trace\<close> when it is the first task in
  scan order that \<open>find_task_by_name\<close> accepts. (When another matching task is scanned
  before it, the trace signal goes to that task instead.)
\<close>

theorem tombstone_exact_only:
  assumes wf: "wf_table tbl"
    and t: "t \<in> set (for_each_process_thread tbl)"
    and m: "find_task_by_name t name"
    and h: "strncmp (comm t) name TASK_COMM_LEN \<noteq> 0"
  shows "send_sig_to_get_tombstone name tbl =
           (case find (\<lambda>p. strncmp (comm p) name TASK_COMM_LEN = 0) (for_each_process tbl) of
              None \<Rightarrow> []
            | Some p \<Rightarrow> [Do_send_sig_info SIGNAL_DEBUGGER p, Sig_msleep 500])
    \<and> \<not> delivered (send_sig_to_get_tombstone name tbl) SIGNAL_DEBUGGER t
    \<and> (find (\<lambda>u. find_task_by_name u name) (for_each_process_thread tbl) = Some t \<longrightarrow>
         send_sig_to_get_trace name tbl = [Do_send_sig_info SIGQUIT t, Sig_msleep 500]
         \<and> delivered (send_sig_to_get_trace name tbl) SIGQUIT t)"
proof (intro conjI impI)
  show shape: "send_sig_to_get_tombstone name tbl =
           (case find (\<lambda>p. strncmp (comm p) name TASK_COMM_LEN = 0) (for_each_process tbl) of
              None \<Rightarrow> []
            | Some p \<Rightarrow> [Do_send_sig_info SIGNAL_DEBUGGER p, Sig_msleep 500])"
    by (simp add: send_sig_to_get_tombstone_def tombstone_loop_find)
  show "\<not> delivered (send_sig_to_get_tombstone name tbl) SIGNAL_DEBUGGER t"
  proof (cases "find (\<lambda>p. strncmp (comm p) name TASK_COMM_LEN = 0) (for_each_process tbl)")
    case None
    with shape show ?thesis by (simp add: delivered_def)
  next
    case (Some p)
    from find_Some_set [OF Some] have p: "p \<in> set (for_each_process tbl)"
      and e: "strncmp (comm p) name TASK_COMM_LEN = 0" by auto
    have "group_leader_pid p \<noteq> group_leader_pid t"
    proof
      assume "group_leader_pid p = group_leader_pid t"
      with wf_leader [OF wf p] heuristic_leads [OF m h] have "pid p = pid t" by simp
      with wf_pid_inj [OF wf _ t] p leaders_are_threads [of tbl] have "p = t" by auto
      with e h show False by simp
    qed
    with shape Some show ?thesis by (simp add: delivered_def)
  qed
next
  assume "find (\<lambda>u. find_task_by_name u name) (for_each_process_thread tbl) = Some t"
  then show "send_sig_to_get_trace name tbl = [Do_send_sig_info SIGQUIT t, Sig_msleep 500]"
    by (simp add: send_sig_to_get_trace_def trace_loop_find)
  then show "delivered (send_sig_to_get_trace name tbl) SIGQUIT t"
    by (simp add: delivered_def)
qed

theorem tombstone_exact_only_witness:
  "send_sig_to_get_tombstone ''system_server'' [(binder_task, []), (exact_task, [])] =
     [Do_send_sig_info SIGNAL_DEBUGGER exact_task, Sig_msleep 500]
   \<and> \<not> delivered (send_sig_to_get_tombstone ''system_server''
           [(binder_task, []), (exact_task, [])]) SIGNAL_DEBUGGER binder_task
   \<and> send_sig_to_get_trace ''system_server'' [(binder_task, []), (exact_task, [])] =
       [Do_send_sig_info SIGQUIT binder_task, Sig_msleep 500]
   \<and> delivered (send_sig_to_get_trace ''system_server''
         [(binder_task, []), (exact_task, [])]) SIGQUIT binder_task"
proof -
  let ?tbl = "[(binder_task, []), (exact_task, [])]"
  have wf: "wf_table ?tbl"
    by (simp add: wf_table_def for_each_process_thread_def exact_task_def binder_task_def)
  have t: "binder_task \<in> set (for_each_process_thread ?tbl)"
    by (simp add: for_each_process_thread_def)
  have m: "find_task_by_name binder_task ''system_server''"
    by (simp add: find_task_by_name_def binder_task_def strncmp_zero_iff strcmp_zero_iff
          TASK_COMM_LEN_def del: strncmp.simps)
  have h: "strncmp (comm binder_task) ''system_server'' TASK_COMM_LEN \<noteq> 0"
    by (simp add: binder_task_def strncmp_zero_iff TASK_COMM_LEN_def del: strncmp.simps)
  have e: "strncmp (comm exact_task) ''system_server'' TASK_COMM_LEN = 0"
    by (simp add: exact_task_def strncmp_zero_iff TASK_COMM_LEN_def del: strncmp.simps)
  have f: "find (\<lambda>u. find_task_by_name u ''system_server'') (for_each_process_thread ?tbl)
      = Some binder_task"
    using m by (simp add: for_each_process_thread_def)
  from tombstone_exact_only [OF wf t m h]
  have a: "send_sig_to_get_tombstone ''system_server'' ?tbl =
           (case find (\<lambda>p. strncmp (comm p) ''system_server'' TASK_COMM_LEN = 0)
                   (for_each_process ?tbl) of
              None \<Rightarrow> []
            | Some p \<Rightarrow> [Do_send_sig_info SIGNAL_DEBUGGER p, Sig_msleep 500])"
    and b: "\<not> delivered (send_sig_to_get_tombstone ''system_server'' ?tbl)
              SIGNAL_DEBUGGER binder_task"
    and c: "find (\<lambda>u. find_task_by_name u ''system_server'') (for_each_process_thread ?tbl)
              = Some binder_task \<longrightarrow>
            send_sig_to_get_trace ''system_server'' ?tbl =
              [Do_send_sig_info SIGQUIT binder_task, Sig_msleep 500]
            \<and> delivered (send_sig_to_get_trace ''system_server'' ?tbl) SIGQUIT binder_task"
    by blast+
  from a h e have a': "send_sig_to_get_tombstone ''system_server'' ?tbl =
      [Do_send_sig_info SIGNAL_DEBUGGER exact_task, Sig_msleep 500]"
    by (simp add: for_each_process_def)
  from c f have d: "send_sig_to_get_trace ''system_server'' ?tbl =
              [Do_send_sig_info SIGQUIT binder_task, Sig_msleep 500]
            \<and> delivered (send_sig_to_get_trace ''system_server'' ?tbl) SIGQUIT binder_task"
    by blast
  from a' b d show ?thesis by blast
qed

theorem exact_before_heuristic_counterexample:
  "wf_table [(exact_task, []), (binder_task, [])]
   \<and> binder_task \<in> set (for_each_process_thread [(exact_task, []), (binder_task, [])])
   \<and> find_task_by_name binder_task ''system_server''
   \<and> strncmp (comm binder_task) ''system_server'' TASK_COMM_LEN \<noteq> 0
   \<and> send_sig_to_get_trace ''system_server'' [(exact_task, []), (binder_task, [])] =
       [Do_send_sig_info SIGQUIT exact_task, Sig_msleep 500]
   \<and> \<not> delivered (send_sig_to_get_trace ''system_server''
           [(exact_task, []), (binder_task, [])]) SIGQUIT binder_task"
  by (simp add: wf_table_def exact_task_def binder_task_def send_sig_to_get_trace_def
        for_each_process_thread_def delivered_def find_task_by_name_def strncmp_zero_iff
        strcmp_zero_iff TASK_COMM_LEN_def del: strncmp.simps)

section \<open>Properties of the swap helper\<close>

declare vbswap_retry.simps [simp del]

lemma vbswap_retry_shape:
  assumes "retries \<le> 25"
  shows "\<exists>k \<le> nat (25 - retries).
           (\<forall>i<k. umh (fst st + i) \<noteq> 0) \<and> (k < nat (25 - retries) \<longrightarrow> umh (fst st + k) = 0)
           \<and> vbswap_retry umh retries st =
               (fst st + k + 1,
                snd st @ concat (replicate k [Linux_sh disksize_command, Msleep DELAY])
                  @ [Linux_sh disksize_command]
                  @ (if umh (fst st + k) \<noteq> 0 then [Msleep DELAY] else []))"
  using assms
proof (induction umh retries st rule: vbswap_retry.induct)
  case (1 umh retries st)
  let ?d = "Linux_sh disksize_command"
  show ?case
  proof (cases "umh (fst st) \<noteq> 0 \<and> retries < 25")
    case True
    then have failed: "umh (fst st) \<noteq> 0" and lt: "retries < 25" by simp_all
    let ?st2 = "(Suc (fst st), snd st @ [?d, Msleep DELAY])"
    have "\<exists>k\<le>nat (25 - (retries + 1)).
            (\<forall>i<k. umh (fst ?st2 + i) \<noteq> 0)
            \<and> (k < nat (25 - (retries + 1)) \<longrightarrow> umh (fst ?st2 + k) = 0)
            \<and> vbswap_retry umh (retries + 1) ?st2 =
                (fst ?st2 + k + 1,
                 snd ?st2 @ concat (replicate k [?d, Msleep DELAY]) @ [?d]
                   @ (if umh (fst ?st2 + k) \<noteq> 0 then [Msleep DELAY] else []))"
      by (rule "1.IH" [of "umh (fst st)" "(Suc (fst st), snd st @ [?d])" ?st2])
         (use failed lt in \<open>simp_all add: linux_sh_def msleep_def\<close>)
    then obtain k where k: "k \<le> nat (25 - (retries + 1))"
      and f: "\<forall>i<k. umh (Suc (fst st) + i) \<noteq> 0"
      and s: "k < nat (25 - (retries + 1)) \<longrightarrow> umh (Suc (fst st) + k) = 0"
      and r: "vbswap_retry umh (retries + 1) ?st2 =
                (Suc (fst st) + k + 1,
                 snd st @ [?d, Msleep DELAY] @ concat (replicate k [?d, Msleep DELAY]) @ [?d]
                   @ (if umh (Suc (fst st) + k) \<noteq> 0 then [Msleep DELAY] else []))"
      by auto
    have step: "vbswap_retry umh retries st = vbswap_retry umh (retries + 1) ?st2"
      using failed lt by (subst vbswap_retry.simps) (simp add: linux_sh_def msleep_def)
    have a: "\<forall>i<Suc k. umh (fst st + i) \<noteq> 0"
    proof (intro allI impI)
      fix i assume i: "i < Suc k"
      show "umh (fst st + i) \<noteq> 0"
      proof (cases i)
        case 0
        with failed show ?thesis by simp
      next
        case (Suc j)
        with i f show ?thesis by simp
      qed
    qed
    from k lt have b: "Suc k \<le> nat (25 - retries)" by linarith
    have c: "Suc k < nat (25 - retries) \<longrightarrow> umh (fst st + Suc k) = 0"
    proof
      assume "Suc k < nat (25 - retries)"
      then have "k < nat (25 - (retries + 1))" by linarith
      with s show "umh (fst st + Suc k) = 0" by simp
    qed
    have d: "vbswap_retry umh retries st =
               (fst st + Suc k + 1,
                snd st @ concat (replicate (Suc k) [?d, Msleep DELAY]) @ [?d]
                  @ (if umh (fst st + Suc k) \<noteq> 0 then [Msleep DELAY] else []))"
      using step r by simp
    show ?thesis
      by (rule exI [of _ "Suc k"]) (intro conjI b a c d)
  next
    case False
    with "1.prems" have stop: "umh (fst st) = 0 \<or> retries = 25" by auto
    have e: "vbswap_retry umh retries st =
            (fst st + 0 + 1, snd st @ concat (replicate 0 [?d, Msleep DELAY]) @ [?d]
                  @ (if umh (fst st + 0) \<noteq> 0 then [Msleep DELAY] else []))"
      using False by (subst vbswap_retry.simps) (auto simp add: linux_sh_def msleep_def)
    have g: "0 < nat (25 - retries) \<longrightarrow> umh (fst st + 0) = 0"
      using stop by auto
    have h: "\<forall>i<0. umh (fst st + i) \<noteq> 0" by simp
    have z: "(0::nat) \<le> nat (25 - retries)" by simp
    show ?thesis
      by (rule exI [of _ 0]) (intro conjI z h g e)
  qed
qed


lemma count_list_concat_pairs:
  "a \<noteq> b \<Longrightarrow> count_list (concat (replicate k [a, b])) a = k"
  by (induction k) auto

lemma commands_distinct:
  "mkswap_command \<noteq> disksize_command" "swapon_command \<noteq> disksize_command"
  by (simp_all add: disksize_command_def mkswap_command_def swapon_command_def)

text \<open>
  Claim C9. \<open>vbswap_helper\<close> always returns. It runs the disksize command, and runs it
  again only after a failure, each failure being followed by a sleep of \<open>DELAY\<close>
  milliseconds: after \<open>k\<close> failures the command has run \<open>k + 1\<close> times, and \<open>k\<close> is
  at most 25, so it is retried at most 25 times. Whatever the last attempt returned, the
  helper then runs the mkswap and the swapon command.
\<close>

theorem vbswap_helper_bounded_retry:
  "\<exists>k\<le>25. (\<forall>i<k. umh i \<noteq> 0) \<and> (k < 25 \<longrightarrow> umh k = 0)
     \<and> snd (vbswap_helper umh) =
         concat (replicate k [Linux_sh disksize_command, Msleep DELAY])
         @ [Linux_sh disksize_command]
         @ (if umh k \<noteq> 0 then [Msleep DELAY] else [])
         @ [Linux_sh mkswap_command, Linux_sh swapon_command]
     \<and> count_list (snd (vbswap_helper umh)) (Linux_sh disksize_command) = k + 1"
proof -
  from vbswap_retry_shape [of 0 umh "(0, [])"]
  obtain k where k: "k \<le> 25" and f: "\<forall>i<k. umh i \<noteq> 0" and s: "k < 25 \<longrightarrow> umh k = 0"
    and r: "vbswap_retry umh 0 (0, []) =
              (k + 1, concat (replicate k [Linux_sh disksize_command, Msleep DELAY])
                  @ [Linux_sh disksize_command]
                  @ (if umh k \<noteq> 0 then [Msleep DELAY] else []))"
    by auto
  have shape: "snd (vbswap_helper umh) =
         concat (replicate k [Linux_sh disksize_command, Msleep DELAY])
         @ [Linux_sh disksize_command]
         @ (if umh k \<noteq> 0 then [Msleep DELAY] else [])
         @ [Linux_sh mkswap_command, Linux_sh swapon_command]"
    by (simp add: vbswap_helper_def r linux_sh_def)
  have cnt: "count_list (snd (vbswap_helper umh)) (Linux_sh disksize_command) = k + 1"
    by (simp add: shape count_list_concat_pairs commands_distinct)
  show ?thesis
    by (rule exI [of _ k]) (intro conjI k f s shape cnt)
qed

theorem vbswap_helper_bounded_retry_witness:
  "count_list (snd (vbswap_helper (\<lambda>n. 1))) (Linux_sh disksize_command) = 26
   \<and> count_list (snd (vbswap_helper (\<lambda>n. 0))) (Linux_sh disksize_command) = 1"
proof -
  from vbswap_helper_bounded_retry [of "\<lambda>n. 1"]
  obtain k where k: "k \<le> 25" and s: "k < 25 \<longrightarrow> (1 :: s32) = 0"
    and c: "count_list (snd (vbswap_helper (\<lambda>n. 1))) (Linux_sh disksize_command) = k + 1"
    by auto
  from k s have "k = 25" by auto
  with c have 1: "count_list (snd (vbswap_helper (\<lambda>n. 1))) (Linux_sh disksize_command) = 26"
    by simp
  from vbswap_helper_bounded_retry [of "\<lambda>n. 0"]
  obtain j where f: "\<forall>i<j. (0 :: s32) \<noteq> 0"
    and c: "count_list (snd (vbswap_helper (\<lambda>n. 0))) (Linux_sh disksize_command) = j + 1"
    by auto
  from f have "j = 0" by auto
  with c have 2: "count_list (snd (vbswap_helper (\<lambda>n. 0))) (Linux_sh disksize_command) = 1"
    by simp
  from 1 2 show ?thesis by simp
qed

end
